theory Spec2Isabelle
  imports Main "HOL-Library.Sublist" "HOL-Library.Word"
begin

unbundle bit_operations_syntax

section \<open>Bytes, characters and integers\<close>

text \<open>
  The elements of a \<^verbatim>\<open>std::string\<close> are bytes, modelled by \<^typ>\<open>char\<close>; a buffer or a
  pattern is a \<^typ>\<open>string\<close>. Every classifier is instantiated at \<^verbatim>\<open>int\<close>: the lambdas of
  \<^verbatim>\<open>match_args\<close> take \<^verbatim>\<open>int c\<close>, so each byte is promoted first. \<^verbatim>\<open>char\<close> is signed on
  the target, hence bytes from 0x80 on become negative. A character literal such as
  \<^verbatim>\<open>'a'\<close> in a comparison is promoted the same way. No predicate is true of a negative
  value or of a value above 127, so an unsigned \<^verbatim>\<open>char\<close> would classify every byte alike.
\<close>

definition char_to_int :: "char \<Rightarrow> int" where
  "char_to_int ch = (let n = of_char ch in if n < 128 then n else n - 256)"

section \<open>char\_type.h: the classifier library\<close>

text \<open>
  Each predicate returns the \<^verbatim>\<open>int\<close> value of a boolean expression (0 or 1); the model
  keeps the boolean. The escapes are \<^verbatim>\<open>'\0'\<close> = 0x00, \<^verbatim>\<open>'\a'\<close> = 0x07, \<^verbatim>\<open>'\b'\<close> = 0x08,
  \<^verbatim>\<open>'\t'\<close> = 0x09, \<^verbatim>\<open>'\n'\<close> = 0x0A, \<^verbatim>\<open>'\v'\<close> = 0x0B, \<^verbatim>\<open>'\f'\<close> = 0x0C, \<^verbatim>\<open>'\r'\<close> = 0x0D.
\<close>

definition isalnum :: "int \<Rightarrow> bool" where
  "isalnum c =
     (((c \<ge> char_to_int CHR ''a'' \<and> c \<le> char_to_int CHR ''z'') \<or>
       (c \<ge> char_to_int CHR ''A'' \<and> c \<le> char_to_int CHR ''Z'')) \<or>
      (c \<ge> char_to_int CHR ''0'' \<and> c \<le> char_to_int CHR ''9''))"

definition isalpha :: "int \<Rightarrow> bool" where
  "isalpha c =
     ((c \<ge> char_to_int CHR ''a'' \<and> c \<le> char_to_int CHR ''z'') \<or>
      (c \<ge> char_to_int CHR ''A'' \<and> c \<le> char_to_int CHR ''Z''))"

definition iscntrl :: "int \<Rightarrow> bool" where
  "iscntrl c = ((c \<ge> char_to_int (CHR 0x00) \<and> c < char_to_int CHR '' '') \<or> c = 127)"

definition isdigit :: "int \<Rightarrow> bool" where
  "isdigit c = (c \<ge> char_to_int CHR ''0'' \<and> c \<le> char_to_int CHR ''9'')"

definition isgraph :: "int \<Rightarrow> bool" where
  "isgraph c = (c \<ge> char_to_int CHR ''!'' \<and> c \<le> char_to_int CHR ''~'')"

definition islower :: "int \<Rightarrow> bool" where
  "islower c = (c \<ge> char_to_int CHR ''a'' \<and> c \<le> char_to_int CHR ''z'')"

definition isprint :: "int \<Rightarrow> bool" where
  "isprint c = (c \<ge> char_to_int CHR '' '' \<and> c \<le> char_to_int CHR ''_'')"

definition ispunct :: "int \<Rightarrow> bool" where
  "ispunct c = (isgraph c \<and> \<not> isalnum c)"

definition isspace :: "int \<Rightarrow> bool" where
  "isspace c =
     ((c \<ge> char_to_int (CHR 0x09) \<and> c \<le> char_to_int (CHR 0x0D)) \<or> c = char_to_int CHR '' '')"

definition isupper :: "int \<Rightarrow> bool" where
  "isupper c = (c \<ge> char_to_int CHR ''A'' \<and> c \<le> char_to_int CHR ''Z'')"

definition isxdigit :: "int \<Rightarrow> bool" where
  "isxdigit c =
     (isdigit c \<or> ((c \<ge> char_to_int CHR ''a'' \<and> c \<le> char_to_int CHR ''f'') \<or>
                    (c \<ge> char_to_int CHR ''A'' \<and> c \<le> char_to_int CHR ''F'')))"

definition isascii :: "int \<Rightarrow> bool" where
  "isascii c = ((c AND NOT 127) = 0)"

definition isblank :: "int \<Rightarrow> bool" where
  "isblank c = (c = char_to_int CHR '' '' \<or> c = char_to_int (CHR 0x09))"

definition tolower :: "int \<Rightarrow> int" where
  "tolower c = (if isupper c then c + char_to_int CHR ''0'' - 16 else c)"

definition toupper :: "int \<Rightarrow> int" where
  "toupper c = (if islower c then c - char_to_int CHR ''0'' + 16 else c)"

definition isvtab :: "int \<Rightarrow> bool" where
  "isvtab c = (c = char_to_int (CHR 0x0B))"

definition ishtab :: "int \<Rightarrow> bool" where
  "ishtab c = (c = char_to_int (CHR 0x09))"

definition istab :: "int \<Rightarrow> bool" where
  "istab c = (isvtab c \<or> ishtab c)"

definition isaspace :: "int \<Rightarrow> bool" where
  "isaspace c = (c = char_to_int CHR '' '')"

definition isbel :: "int \<Rightarrow> bool" where
  "isbel c = (c = char_to_int (CHR 0x07))"

definition isbackspace :: "int \<Rightarrow> bool" where
  "isbackspace c = (c = char_to_int (CHR 0x08))"

definition isformfeed :: "int \<Rightarrow> bool" where
  "isformfeed c = (c = char_to_int (CHR 0x0C))"

definition isnewline :: "int \<Rightarrow> bool" where
  "isnewline c = (c = char_to_int (CHR 0x0A))"

definition isreturn :: "int \<Rightarrow> bool" where
  "isreturn c = (c = char_to_int (CHR 0x0D))"

definition isxlower :: "int \<Rightarrow> bool" where
  "isxlower c = (islower c \<or> (c \<ge> char_to_int CHR ''a'' \<and> c \<le> char_to_int CHR ''f''))"

definition isxupper :: "int \<Rightarrow> bool" where
  "isxupper c = (isupper c \<or> (c \<ge> char_to_int CHR ''A'' \<and> c \<le> char_to_int CHR ''F''))"

section \<open>The operations of std::string and std::find that xc.cc calls\<close>

text \<open>
  \<^verbatim>\<open>std::string::npos\<close> is the largest \<^verbatim>\<open>size_t\<close>; sizes and positions are naturals, and
  the one addition on \<^verbatim>\<open>size_t\<close> in \<^verbatim>\<open>main\<close> is taken modulo \<open>2 ^ 64\<close>.
\<close>

definition npos :: nat where
  "npos = 2 ^ 64 - 1"

text \<open>\<^verbatim>\<open>s.find(key)\<close>: the first position at which \<open>key\<close> occurs in \<open>s\<close>, or \<open>npos\<close>.\<close>

fun find_from :: "string \<Rightarrow> string \<Rightarrow> nat \<Rightarrow> nat" where
  "find_from [] key pos = (if key = [] then pos else npos)"
| "find_from (c # cs) key pos =
     (if prefix key (c # cs) then pos else find_from cs key (Suc pos))"

definition str_find :: "string \<Rightarrow> string \<Rightarrow> nat" where
  "str_find s key = find_from s key 0"

text \<open>\<^verbatim>\<open>s.rfind(key)\<close>: the last position at which \<open>key\<close> occurs in \<open>s\<close>, or \<open>npos\<close>.\<close>

fun rfind_from :: "string \<Rightarrow> string \<Rightarrow> nat \<Rightarrow> nat \<Rightarrow> nat" where
  "rfind_from [] key pos last_hit = (if key = [] then pos else last_hit)"
| "rfind_from (c # cs) key pos last_hit =
     rfind_from cs key (Suc pos) (if prefix key (c # cs) then pos else last_hit)"

definition str_rfind :: "string \<Rightarrow> string \<Rightarrow> nat" where
  "str_rfind s key = rfind_from s key 0 npos"

datatype error =
  Exit int string  \<comment> \<open>\<^verbatim>\<open>std::exit(status)\<close> after a message on the diagnostic stream\<close>
  | OutOfRange     \<comment> \<open>\<^verbatim>\<open>std::out_of_range\<close>, thrown by \<^verbatim>\<open>replace\<close> when \<open>pos > size()\<close>\<close>

text \<open>
  \<^verbatim>\<open>s.replace(pos, count, str)\<close>: replaces the \<open>min count (size - pos)\<close> characters from
  \<open>pos\<close> on by \<open>str\<close>.
\<close>

definition str_replace :: "string \<Rightarrow> nat \<Rightarrow> nat \<Rightarrow> string \<Rightarrow> error + string" where
  "str_replace s pos count str =
     (if pos > length s then Inl OutOfRange
      else Inr (take pos s @ str @ drop (pos + min count (length s - pos)) s))"

text \<open>\<^verbatim>\<open>s.erase(first, last)\<close> on iterators, given as positions: removes \<open>[first_it, last_it)\<close>.\<close>

definition str_erase_range :: "string \<Rightarrow> nat \<Rightarrow> nat \<Rightarrow> string" where
  "str_erase_range s first_it last_it = take first_it s @ drop last_it s"

text \<open>\<^verbatim>\<open>s.erase(p)\<close> on a dereferenceable iterator: removes the one character at \<open>p\<close>.\<close>

definition str_erase_at :: "string \<Rightarrow> nat \<Rightarrow> string" where
  "str_erase_at s p = take p s @ drop (Suc p) s"

text \<open>
  \<^verbatim>\<open>std::find(s.begin(), s.end(), e)\<close>: the position of the first element equal to \<open>e\<close>;
  the end iterator, which is the position \<open>length s\<close>, when there is none.
\<close>

fun std_find :: "string \<Rightarrow> char \<Rightarrow> nat" where
  "std_find [] e = 0"
| "std_find (c # cs) e = (if c = e then 0 else Suc (std_find cs e))"

section \<open>xc.cc: the removal engine\<close>

definition fatal_errorx :: "string \<Rightarrow> error" where
  "fatal_errorx emsg = Exit 1 (''error: '' @ emsg @ [CHR 0x0A])"

subsection \<open>look\_for\<close>

lemma std_find_le: "std_find s e \<le> length s"
  by (induction s) simp_all

text \<open>
  The inner \<^verbatim>\<open>while\<close> loop of \<^verbatim>\<open>look_for\<close>: as long as \<open>times\<close> is not zero and \<open>e\<close> is
  found, erase the found character and decrement \<open>times\<close>. It returns the source and the
  counter. The variable \<open>times\<close> of the source is written \<open>ntimes\<close>, since \<open>times\<close> is the
  name of multiplication in HOL. The limit is an \<^verbatim>\<open>int64_t\<close>; it is decremented only while
  it is positive, so it never wraps and is modelled by \<^typ>\<open>int\<close>.
\<close>

function erase_while :: "char \<Rightarrow> string \<Rightarrow> int \<Rightarrow> string \<times> int" where
  "erase_while e source ntimes =
     (if ntimes \<noteq> 0 \<and> std_find source e \<noteq> length source
      then erase_while e (str_erase_at source (std_find source e)) (ntimes - 1)
      else (source, ntimes))"
  by pat_completeness auto
termination
proof (relation "measure (\<lambda>(e, source, ntimes). length source)")
  fix e :: char and source :: string and ntimes :: int
  assume "ntimes \<noteq> 0 \<and> std_find source e \<noteq> length source"
  then have "std_find source e < length source"
    using std_find_le [of source e] by simp
  then show "((e, str_erase_at source (std_find source e), ntimes - 1), (e, source, ntimes))
      \<in> measure (\<lambda>(e, source, ntimes). length source)"
    by (simp add: str_erase_at_def)
qed simp

declare erase_while.simps [simp del]

text \<open>
  The range-based \<^verbatim>\<open>for\<close> over \<open>matches\<close>: the iterator is the position \<open>it\<close>, the end
  iterator \<open>end_it\<close> is taken once, before the first iteration. Each iteration runs the
  inner loop for the character at \<open>it\<close>, calls \<^verbatim>\<open>matches.erase(matches.begin(),
  matches.begin())\<close> and resets \<open>times\<close> to \<open>times_old\<close>. The test \<open>it < end_it\<close> is the
  source's \<open>it != end_it\<close> for an iterator that starts at \<open>begin\<close> and is only incremented.
\<close>

function for_matches ::
  "nat \<Rightarrow> nat \<Rightarrow> string \<Rightarrow> string \<Rightarrow> int \<Rightarrow> int \<Rightarrow> string \<times> string" where
  "for_matches it end_it source matches ntimes times_old =
     (if it < end_it
      then (let e = matches ! it;
                (source', ntimes') = erase_while e source ntimes;
                matches' = str_erase_range matches 0 0
            in for_matches (Suc it) end_it source' matches' times_old times_old)
      else (source, matches))"
  by pat_completeness auto
termination
  by (relation "measure (\<lambda>(it, end_it, source, matches, ntimes, times_old). end_it - it)") auto

declare for_matches.simps [simp del]

text \<open>
  \<^verbatim>\<open>look_for\<close> mutates both of its reference parameters. The model returns the outcome
  (the error, or the returned string), then the source and the matches as the call
  leaves them.
\<close>

definition look_for :: "string \<Rightarrow> string \<Rightarrow> int \<Rightarrow> (error + string) \<times> string \<times> string" where
  "look_for source matches ntimes =
     (let times_old = ntimes in
      if ntimes < 0
      then (Inl (fatal_errorx ''size of how many, cannot be less than 0.''), source, matches)
      else (let (source', matches') =
                  for_matches 0 (length matches) source matches ntimes times_old
            in (Inr source', source', matches')))"

subsection \<open>ignore\_if, ignore\_and\_append, contains\_this, match\_args\<close>

text \<open>The loop of \<^verbatim>\<open>ignore_if\<close>, with the string \<open>buf\<close> that it builds by \<^verbatim>\<open>push_back\<close>.\<close>

fun ignore_if_loop :: "string \<Rightarrow> (char \<Rightarrow> bool) \<Rightarrow> string \<Rightarrow> string" where
  "ignore_if_loop [] pred buf = buf"
| "ignore_if_loop (item # rest) pred buf =
     ignore_if_loop rest pred (if \<not> pred item then buf @ [item] else buf)"

definition ignore_if :: "string \<Rightarrow> (char \<Rightarrow> bool) \<Rightarrow> string" where
  "ignore_if source pred = ignore_if_loop source pred []"

definition ignore_and_append :: "string \<Rightarrow> (char \<Rightarrow> bool) \<Rightarrow> string" where
  "ignore_and_append buf pred = (let new_buf = ignore_if buf pred; cleared = [] in cleared @ new_buf)"

definition contains_this :: "string \<Rightarrow> string \<Rightarrow> bool" where
  "contains_this source key = (str_find source key \<noteq> npos)"

text \<open>
  \<^verbatim>\<open>match_args\<close>: fifteen tests in the order of the source, each with the lambda the
  source passes. A lambda takes \<^verbatim>\<open>int c\<close>, so the byte is promoted at the call.
\<close>

definition match_args :: "string \<Rightarrow> string \<Rightarrow> string" where
  "match_args args buf0 =
     (let buf = (if contains_this args ''[:alnum:]''
                 then ignore_and_append buf0 (\<lambda>c. isalnum (char_to_int c)) else buf0);
          buf = (if contains_this args ''[:alpha:]''
                 then ignore_and_append buf (\<lambda>c. isalpha (char_to_int c)) else buf);
          buf = (if contains_this args ''[:blank:]''
                 then ignore_and_append buf (\<lambda>c. isblank (char_to_int c)) else buf);
          buf = (if contains_this args ''[:cntrl:]''
                 then ignore_and_append buf (\<lambda>c. iscntrl (char_to_int c)) else buf);
          buf = (if contains_this args ''[:digit:]''
                 then ignore_and_append buf (\<lambda>c. isdigit (char_to_int c)) else buf);
          buf = (if contains_this args ''[:graph:]''
                 then ignore_and_append buf (\<lambda>c. isgraph (char_to_int c)) else buf);
          buf = (if contains_this args ''[:lower:]''
                 then ignore_and_append buf (\<lambda>c. islower (char_to_int c)) else buf);
          buf = (if contains_this args ''[:print:]''
                 then ignore_and_append buf (\<lambda>c. isprint (char_to_int c)) else buf);
          buf = (if contains_this args ''[:punct:]''
                 then ignore_and_append buf (\<lambda>c. ispunct (char_to_int c)) else buf);
          buf = (if contains_this args ''[:space:]''
                 then ignore_and_append buf (\<lambda>c. isaspace (char_to_int c)) else buf);
          buf = (if contains_this args ''[:htab:]''
                 then ignore_and_append buf (\<lambda>c. ishtab (char_to_int c)) else buf);
          buf = (if contains_this args ''[:vtab:]''
                 then ignore_and_append buf (\<lambda>c. ishtab (char_to_int c)) else buf);
          buf = (if contains_this args ''[:newline:]''
                 then ignore_and_append buf (\<lambda>c. isnewline (char_to_int c)) else buf);
          buf = (if contains_this args ''[:upper:]''
                 then ignore_and_append buf (\<lambda>c. isupper (char_to_int c)) else buf);
          buf = (if contains_this args ''[:xdigit:]''
                 then ignore_and_append buf (\<lambda>c. isxdigit (char_to_int c)) else buf)
      in buf)"

subsection \<open>main: the literal residue of the pattern\<close>

text \<open>
  Lines 277 to 279 of \<^verbatim>\<open>main\<close>: when the pattern contains \<^verbatim>\<open>[:\<close>, one call of \<^verbatim>\<open>replace\<close>
  with the position \<^verbatim>\<open>find("[:")\<close>, the count \<^verbatim>\<open>rfind(":]") + 2\<close> (an addition on
  \<^verbatim>\<open>size_t\<close>) and the empty string.
\<close>

definition literal_residue :: "string \<Rightarrow> error + string" where
  "literal_residue arg_v1 =
     (if str_find arg_v1 ''[:'' \<noteq> npos
      then str_replace arg_v1 (str_find arg_v1 ''[:'') ((str_rfind arg_v1 '':]'' + 2) mod 2 ^ 64) []
      else Inr arg_v1)"

text \<open>
  Lines 276 to 282 of \<^verbatim>\<open>main\<close>, after the file is read and the options are parsed: class
  removal, the residue, literal removal, and the buffer that is written to the output.
\<close>

definition main_core :: "string \<Rightarrow> string \<Rightarrow> int \<Rightarrow> error + string" where
  "main_core arg_v1 file_buf look_lim =
     (let file_buf = match_args arg_v1 file_buf in
      case literal_residue arg_v1 of
        Inl e \<Rightarrow> Inl e
      | Inr arg_v1 \<Rightarrow>
          (case look_for file_buf arg_v1 look_lim of
             (Inl e, file_buf, arg_v1) \<Rightarrow> Inl e
           | (Inr returned, file_buf, arg_v1) \<Rightarrow> Inr file_buf))"

section \<open>Facts about the promotion of bytes\<close>

lemma char_to_int_nat:
  "char_to_int b =
     (if (of_char b :: nat) < 128 then int (of_char b) else int (of_char b) - 256)"
proof -
  have "(of_char b :: int) = int (of_char b)"
    by (simp add: of_nat_of_char)
  then show ?thesis
    by (simp add: char_to_int_def)
qed

lemma char_to_int_bounds: "- 128 \<le> char_to_int b \<and> char_to_int b \<le> 127"
  using nat_of_char_less_256 [of b] unfolding char_to_int_nat by arith

lemma char_to_int_inj: "char_to_int b = char_to_int c \<longleftrightarrow> b = c"
proof
  assume eq: "char_to_int b = char_to_int c"
  have "(of_char b :: nat) < 256" and "(of_char c :: nat) < 256"
    by simp_all
  with eq have "(of_char b :: nat) = of_char c"
    unfolding char_to_int_nat by (simp del: nat_of_char_less_256 split: if_splits)
  then show "b = c"
    by (simp only: of_char_eq_iff)
qed simp

lemma char_to_int_eq:
  assumes "0 \<le> k" and "k \<le> 127"
  shows "char_to_int b = k \<longleftrightarrow> (of_char b :: nat) = nat k"
  using assms nat_of_char_less_256 [of b] unfolding char_to_int_nat by arith

lemma and_not_127: "(c AND NOT 127 = 0) = (take_bit 7 c = (c::int))"
proof -
  have "(127::int) = mask 7"
    by (simp add: mask_eq_exp_minus_1)
  then show ?thesis
    by (auto simp: bit_eq_iff bit_simps)
qed

subsection \<open>The numeric range of every predicate\<close>

lemma isalnum_range:
  "isalnum c \<longleftrightarrow> (97 \<le> c \<and> c \<le> 122) \<or> (65 \<le> c \<and> c \<le> 90) \<or> (48 \<le> c \<and> c \<le> 57)"
  by (auto simp add: isalnum_def char_to_int_def)

lemma isalpha_range: "isalpha c \<longleftrightarrow> (97 \<le> c \<and> c \<le> 122) \<or> (65 \<le> c \<and> c \<le> 90)"
  by (simp add: isalpha_def char_to_int_def)

lemma iscntrl_range: "iscntrl c \<longleftrightarrow> (0 \<le> c \<and> c \<le> 31) \<or> c = 127"
  by (auto simp add: iscntrl_def char_to_int_def)

lemma isdigit_range: "isdigit c \<longleftrightarrow> 48 \<le> c \<and> c \<le> 57"
  by (simp add: isdigit_def char_to_int_def)

lemma isgraph_range: "isgraph c \<longleftrightarrow> 33 \<le> c \<and> c \<le> 126"
  by (simp add: isgraph_def char_to_int_def)

lemma islower_range: "islower c \<longleftrightarrow> 97 \<le> c \<and> c \<le> 122"
  by (simp add: islower_def char_to_int_def)

lemma isprint_range: "isprint c \<longleftrightarrow> 32 \<le> c \<and> c \<le> 95"
  by (simp add: isprint_def char_to_int_def)

lemma isspace_range: "isspace c \<longleftrightarrow> (9 \<le> c \<and> c \<le> 13) \<or> c = 32"
  by (simp add: isspace_def char_to_int_def)

lemma isupper_range: "isupper c \<longleftrightarrow> 65 \<le> c \<and> c \<le> 90"
  by (simp add: isupper_def char_to_int_def)

lemma isxdigit_range:
  "isxdigit c \<longleftrightarrow> (48 \<le> c \<and> c \<le> 57) \<or> (97 \<le> c \<and> c \<le> 102) \<or> (65 \<le> c \<and> c \<le> 70)"
  by (simp add: isxdigit_def isdigit_range char_to_int_def)

lemma isascii_range: "isascii c \<longleftrightarrow> 0 \<le> c \<and> c \<le> 127"
  unfolding isascii_def and_not_127 by (auto simp add: take_bit_int_eq_self_iff)

lemma isblank_range: "isblank c \<longleftrightarrow> c = 32 \<or> c = 9"
  by (simp add: isblank_def char_to_int_def)

lemma ispunct_range:
  "ispunct c \<longleftrightarrow> (33 \<le> c \<and> c \<le> 47) \<or> (58 \<le> c \<and> c \<le> 64) \<or> (91 \<le> c \<and> c \<le> 96) \<or>
     (123 \<le> c \<and> c \<le> 126)"
  unfolding ispunct_def isgraph_range isalnum_range by arith

lemma single_byte_values:
  "isvtab c \<longleftrightarrow> c = 11" "ishtab c \<longleftrightarrow> c = 9" "isaspace c \<longleftrightarrow> c = 32" "isbel c \<longleftrightarrow> c = 7"
  "isbackspace c \<longleftrightarrow> c = 8" "isformfeed c \<longleftrightarrow> c = 12" "isnewline c \<longleftrightarrow> c = 10"
  "isreturn c \<longleftrightarrow> c = 13"
  by (simp_all add: isvtab_def ishtab_def isaspace_def isbel_def isbackspace_def
      isformfeed_def isnewline_def isreturn_def char_to_int_def)

lemma istab_range: "istab c \<longleftrightarrow> c = 11 \<or> c = 9"
  by (simp add: istab_def single_byte_values)

lemma isxlower_range: "isxlower c \<longleftrightarrow> 97 \<le> c \<and> c \<le> 122"
  by (auto simp add: isxlower_def islower_range char_to_int_def)

lemma isxupper_range: "isxupper c \<longleftrightarrow> 65 \<le> c \<and> c \<le> 90"
  by (auto simp add: isxupper_def isupper_range char_to_int_def)

section \<open>Claims about the classifier\<close>

text \<open>
  C7: for every byte \<open>b\<close>, each classifier predicate is true exactly on its documented
  ASCII set, stated on the unsigned code of the byte: in particular print exactly on
  [0x20,0x5F], cntrl exactly on [0x00,0x1F] and 0x7F, graph exactly on [0x21,0x7E]. Bytes
  from 0x80 on belong to no class.
\<close>

theorem classifier_documented_sets:
  fixes b :: char
  shows "(let n = (of_char b :: nat); c = char_to_int b in
     (isalnum c = ((0x41 \<le> n \<and> n \<le> 0x5A) \<or> (0x61 \<le> n \<and> n \<le> 0x7A) \<or> (0x30 \<le> n \<and> n \<le> 0x39))) \<and>
     (isalpha c = ((0x41 \<le> n \<and> n \<le> 0x5A) \<or> (0x61 \<le> n \<and> n \<le> 0x7A))) \<and>
     (isdigit c = (0x30 \<le> n \<and> n \<le> 0x39)) \<and>
     (isupper c = (0x41 \<le> n \<and> n \<le> 0x5A)) \<and>
     (islower c = (0x61 \<le> n \<and> n \<le> 0x7A)) \<and>
     (iscntrl c = (n \<le> 0x1F \<or> n = 0x7F)) \<and>
     (isgraph c = (0x21 \<le> n \<and> n \<le> 0x7E)) \<and>
     (isprint c = (0x20 \<le> n \<and> n \<le> 0x5F)) \<and>
     (ispunct c = ((0x21 \<le> n \<and> n \<le> 0x7E) \<and>
        \<not> ((0x41 \<le> n \<and> n \<le> 0x5A) \<or> (0x61 \<le> n \<and> n \<le> 0x7A) \<or> (0x30 \<le> n \<and> n \<le> 0x39)))) \<and>
     (isspace c = ((0x09 \<le> n \<and> n \<le> 0x0D) \<or> n = 0x20)) \<and>
     (isblank c = (n = 0x20 \<or> n = 0x09)) \<and>
     (isxdigit c = ((0x30 \<le> n \<and> n \<le> 0x39) \<or> (0x61 \<le> n \<and> n \<le> 0x66) \<or> (0x41 \<le> n \<and> n \<le> 0x46))) \<and>
     (isascii c = (n \<le> 0x7F)) \<and>
     (ishtab c = (n = 0x09)) \<and>
     (isvtab c = (n = 0x0B)) \<and>
     (isnewline c = (n = 0x0A)) \<and>
     (isreturn c = (n = 0x0D)) \<and>
     (isaspace c = (n = 0x20)) \<and>
     (isbel c = (n = 0x07)) \<and>
     (isbackspace c = (n = 0x08)) \<and>
     (isformfeed c = (n = 0x0C)) \<and>
     (isxlower c = ((0x61 \<le> n \<and> n \<le> 0x7A) \<or> (0x61 \<le> n \<and> n \<le> 0x66))) \<and>
     (isxupper c = ((0x41 \<le> n \<and> n \<le> 0x5A) \<or> (0x41 \<le> n \<and> n \<le> 0x46))) \<and>
     (istab c = (n = 0x09 \<or> n = 0x0B)))"
proof -
  have n: "(of_char b :: nat) < 256"
    by simp
  have c: "char_to_int b =
      (if (of_char b :: nat) < 128 then int (of_char b) else int (of_char b) - 256)"
    by (rule char_to_int_nat)
  have alnum: "isalnum (char_to_int b) = ((0x41 \<le> (of_char b :: nat) \<and> (of_char b :: nat) \<le> 0x5A) \<or>
      (0x61 \<le> (of_char b :: nat) \<and> (of_char b :: nat) \<le> 0x7A) \<or>
      (0x30 \<le> (of_char b :: nat) \<and> (of_char b :: nat) \<le> 0x39))"
    unfolding isalnum_range c using n by arith
  have graph: "isgraph (char_to_int b) = (0x21 \<le> (of_char b :: nat) \<and> (of_char b :: nat) \<le> 0x7E)"
    unfolding isgraph_range c using n by arith
  have "isalpha (char_to_int b) = ((0x41 \<le> (of_char b :: nat) \<and> (of_char b :: nat) \<le> 0x5A) \<or>
      (0x61 \<le> (of_char b :: nat) \<and> (of_char b :: nat) \<le> 0x7A))"
    unfolding isalpha_range c using n by arith
  moreover have "isdigit (char_to_int b) = (0x30 \<le> (of_char b :: nat) \<and> (of_char b :: nat) \<le> 0x39)"
    unfolding isdigit_range c using n by arith
  moreover have "isupper (char_to_int b) = (0x41 \<le> (of_char b :: nat) \<and> (of_char b :: nat) \<le> 0x5A)"
    unfolding isupper_range c using n by arith
  moreover have "islower (char_to_int b) = (0x61 \<le> (of_char b :: nat) \<and> (of_char b :: nat) \<le> 0x7A)"
    unfolding islower_range c using n by arith
  moreover have "iscntrl (char_to_int b) = ((of_char b :: nat) \<le> 0x1F \<or> (of_char b :: nat) = 0x7F)"
    unfolding iscntrl_range c using n by arith
  moreover have "isprint (char_to_int b) = (0x20 \<le> (of_char b :: nat) \<and> (of_char b :: nat) \<le> 0x5F)"
    unfolding isprint_range c using n by arith
  moreover have "ispunct (char_to_int b) = ((0x21 \<le> (of_char b :: nat) \<and> (of_char b :: nat) \<le> 0x7E) \<and>
      \<not> ((0x41 \<le> (of_char b :: nat) \<and> (of_char b :: nat) \<le> 0x5A) \<or>
         (0x61 \<le> (of_char b :: nat) \<and> (of_char b :: nat) \<le> 0x7A) \<or>
         (0x30 \<le> (of_char b :: nat) \<and> (of_char b :: nat) \<le> 0x39)))"
    unfolding ispunct_def alnum graph by simp
  moreover have "isspace (char_to_int b) = ((0x09 \<le> (of_char b :: nat) \<and> (of_char b :: nat) \<le> 0x0D) \<or>
      (of_char b :: nat) = 0x20)"
    unfolding isspace_range c using n by arith
  moreover have "isblank (char_to_int b) = ((of_char b :: nat) = 0x20 \<or> (of_char b :: nat) = 0x09)"
    unfolding isblank_range c using n by arith
  moreover have "isxdigit (char_to_int b) = ((0x30 \<le> (of_char b :: nat) \<and> (of_char b :: nat) \<le> 0x39) \<or>
      (0x61 \<le> (of_char b :: nat) \<and> (of_char b :: nat) \<le> 0x66) \<or>
      (0x41 \<le> (of_char b :: nat) \<and> (of_char b :: nat) \<le> 0x46))"
    unfolding isxdigit_range c using n by arith
  moreover have "isascii (char_to_int b) = ((of_char b :: nat) \<le> 0x7F)"
    unfolding isascii_range c using n by arith
  moreover have "ishtab (char_to_int b) = ((of_char b :: nat) = 0x09)"
    and "isvtab (char_to_int b) = ((of_char b :: nat) = 0x0B)"
    and "isnewline (char_to_int b) = ((of_char b :: nat) = 0x0A)"
    and "isreturn (char_to_int b) = ((of_char b :: nat) = 0x0D)"
    and "isaspace (char_to_int b) = ((of_char b :: nat) = 0x20)"
    and "isbel (char_to_int b) = ((of_char b :: nat) = 0x07)"
    and "isbackspace (char_to_int b) = ((of_char b :: nat) = 0x08)"
    and "isformfeed (char_to_int b) = ((of_char b :: nat) = 0x0C)"
    unfolding single_byte_values by (simp_all add: char_to_int_eq)
  moreover have "isxlower (char_to_int b) = ((0x61 \<le> (of_char b :: nat) \<and> (of_char b :: nat) \<le> 0x7A) \<or>
      (0x61 \<le> (of_char b :: nat) \<and> (of_char b :: nat) \<le> 0x66))"
    unfolding isxlower_range c using n by arith
  moreover have "isxupper (char_to_int b) = ((0x41 \<le> (of_char b :: nat) \<and> (of_char b :: nat) \<le> 0x5A) \<or>
      (0x41 \<le> (of_char b :: nat) \<and> (of_char b :: nat) \<le> 0x46))"
    unfolding isxupper_range c using n by arith
  moreover have "istab (char_to_int b) = ((of_char b :: nat) = 0x09 \<or> (of_char b :: nat) = 0x0B)"
    unfolding istab_range c using n by arith
  ultimately show ?thesis
    unfolding Let_def using alnum graph by blast
qed

text \<open>
  C6 (as amended): for every uppercase \<open>c\<close>, \<open>tolower c = c + ('0' - 16)\<close>, and for every
  lowercase \<open>c\<close>, \<open>toupper c = c - ('0' - 16)\<close>; outside the respective class both return
  the input unchanged. The shift \<open>'0' - 16\<close> is 32, which is the standard ASCII
  case-folding shift \<open>'a' - 'A'\<close>, so upper case maps onto lower case and back.
\<close>

theorem tolower_toupper_shift:
  "(isupper c \<longrightarrow> tolower c = c + (char_to_int CHR ''0'' - 16)) \<and>
   (islower c \<longrightarrow> toupper c = c - (char_to_int CHR ''0'' - 16)) \<and>
   (\<not> isupper c \<longrightarrow> tolower c = c) \<and>
   (\<not> islower c \<longrightarrow> toupper c = c) \<and>
   char_to_int CHR ''0'' - 16 = char_to_int CHR ''a'' - char_to_int CHR ''A''"
  by (simp add: tolower_def toupper_def char_to_int_def)

text \<open>
  C6, witness: the theorem at \<open>'A'\<close> (upper case, not lower case) and at \<open>'a'\<close> (lower
  case, not upper case).
\<close>

theorem tolower_toupper_shift_witness:
  "isupper 65 \<and> tolower 65 = 65 + (char_to_int CHR ''0'' - 16) \<and>
   islower 97 \<and> toupper 97 = 97 - (char_to_int CHR ''0'' - 16) \<and>
   \<not> isupper 97 \<and> tolower 97 = 97 \<and> \<not> islower 65 \<and> toupper 65 = 65"
  using tolower_toupper_shift [of 65] tolower_toupper_shift [of 97]
  by (simp add: isupper_range islower_range)

text \<open>
  C6, counterexample to the claim as stated: the shift \<open>'0' - 16\<close> is not different from
  \<open>'a' - 'A'\<close>; \<open>tolower\<close> maps \<open>'A'\<close> to \<open>'a'\<close> and \<open>toupper\<close> maps \<open>'a'\<close> to \<open>'A'\<close>.
\<close>

theorem case_shift_is_standard:
  "char_to_int CHR ''0'' - 16 = char_to_int CHR ''a'' - char_to_int CHR ''A'' \<and>
   tolower (char_to_int CHR ''A'') = char_to_int CHR ''a'' \<and>
   toupper (char_to_int CHR ''a'') = char_to_int CHR ''A''"
  by (simp add: tolower_def toupper_def isupper_def islower_def char_to_int_def)

section \<open>Facts about the string operations\<close>

lemma find_from_absent: "\<not> sublist key s \<Longrightarrow> find_from s key pos = npos"
  by (induction s arbitrary: pos) (auto simp add: sublist_Cons_right)

lemma find_from_present:
  "sublist key s \<Longrightarrow> pos \<le> find_from s key pos \<and> find_from s key pos \<le> pos + length s"
proof (induction s arbitrary: pos)
  case Nil
  then show ?case by simp
next
  case (Cons c cs)
  show ?case
  proof (cases "prefix key (c # cs)")
    case True
    then show ?thesis by simp
  next
    case False
    with Cons.prems have "sublist key cs"
      by (simp add: sublist_Cons_right)
    from Cons.IH [OF this, of "Suc pos"] False show ?thesis
      by simp
  qed
qed

text \<open>
  \<^verbatim>\<open>contains_this\<close> is substring containment, for every string shorter than \<open>npos\<close> (and
  no \<^verbatim>\<open>std::string\<close> is longer).
\<close>

lemma contains_this_sublist:
  assumes "length source < npos"
  shows "contains_this source key \<longleftrightarrow> sublist key source"
proof (cases "sublist key source")
  case True
  from find_from_present [OF this, of 0] assms show ?thesis
    using True by (simp add: contains_this_def str_find_def)
next
  case False
  then show ?thesis
    by (simp add: contains_this_def str_find_def find_from_absent)
qed

lemma std_find_end_iff: "std_find s e = length s \<longleftrightarrow> e \<notin> set s"
  using std_find_le [of _ e] by (induction s) auto

lemma erase_first: "e \<in> set s \<Longrightarrow> str_erase_at s (std_find s e) = remove1 e s"
  by (induction s) (auto simp add: str_erase_at_def)

section \<open>Facts about class removal\<close>

lemma ignore_if_loop_filter:
  "ignore_if_loop source pred buf = buf @ filter (\<lambda>item. \<not> pred item) source"
  by (induction source arbitrary: buf) simp_all

lemma ignore_if_filter: "ignore_if source pred = filter (\<lambda>item. \<not> pred item) source"
  by (simp add: ignore_if_def ignore_if_loop_filter)

lemma ignore_and_append_filter:
  "ignore_and_append buf pred = filter (\<lambda>item. \<not> pred item) buf"
  by (simp add: ignore_and_append_def ignore_if_filter)

lemma pass_filter:
  "(if sel then ignore_and_append buf pred else buf) =
     filter (\<lambda>item. \<not> (sel \<and> pred item)) buf"
  by (simp add: ignore_and_append_filter)

text \<open>
  The fifteen passes of \<^verbatim>\<open>match_args\<close> together keep exactly the bytes that no selected
  predicate matches.
\<close>

lemma match_args_filter:
  "match_args args buf = filter (\<lambda>item. \<not> (
      (contains_this args ''[:alnum:]'' \<and> isalnum (char_to_int item)) \<or>
      (contains_this args ''[:alpha:]'' \<and> isalpha (char_to_int item)) \<or>
      (contains_this args ''[:blank:]'' \<and> isblank (char_to_int item)) \<or>
      (contains_this args ''[:cntrl:]'' \<and> iscntrl (char_to_int item)) \<or>
      (contains_this args ''[:digit:]'' \<and> isdigit (char_to_int item)) \<or>
      (contains_this args ''[:graph:]'' \<and> isgraph (char_to_int item)) \<or>
      (contains_this args ''[:lower:]'' \<and> islower (char_to_int item)) \<or>
      (contains_this args ''[:print:]'' \<and> isprint (char_to_int item)) \<or>
      (contains_this args ''[:punct:]'' \<and> ispunct (char_to_int item)) \<or>
      (contains_this args ''[:space:]'' \<and> isaspace (char_to_int item)) \<or>
      (contains_this args ''[:htab:]'' \<and> ishtab (char_to_int item)) \<or>
      (contains_this args ''[:vtab:]'' \<and> ishtab (char_to_int item)) \<or>
      (contains_this args ''[:newline:]'' \<and> isnewline (char_to_int item)) \<or>
      (contains_this args ''[:upper:]'' \<and> isupper (char_to_int item)) \<or>
      (contains_this args ''[:xdigit:]'' \<and> isxdigit (char_to_int item)))) buf"
  unfolding match_args_def Let_def pass_filter filter_filter
  by (rule filter_cong) auto

lemmas token_eval = contains_this_def str_find_def npos_def

lemma isaspace_byte: "isaspace (char_to_int c) \<longleftrightarrow> c = CHR '' ''"
  unfolding isaspace_def by (rule char_to_int_inj)

lemma ishtab_byte: "ishtab (char_to_int c) \<longleftrightarrow> c = CHR 0x09"
  unfolding ishtab_def by (rule char_to_int_inj)

section \<open>Claims about class removal\<close>

text \<open>
  C8: class removal is idempotent. For every buffer and every predicate, applying
  \<^verbatim>\<open>ignore_if\<close> twice with the same predicate gives what one application gives, and so
  does \<^verbatim>\<open>ignore_and_append\<close>, which stores that result in the buffer.
\<close>

theorem class_removal_idempotent:
  "ignore_if (ignore_if source pred) pred = ignore_if source pred \<and>
   ignore_and_append (ignore_and_append buf pred) pred = ignore_and_append buf pred"
  by (simp add: ignore_if_filter ignore_and_append_filter)

text \<open>
  C1: the claim wants every vertical tab (0x0B) deleted when the pattern contains
  \<^verbatim>\<open>[:vtab:]\<close>. The lambda under that token calls \<^verbatim>\<open>ishtab\<close>, as the one of \<^verbatim>\<open>[:htab:]\<close>
  does. On the buffer \<open>a\<close>, 0x0B, \<open>b\<close>, 0x09, \<open>c\<close> the vertical tab survives and the
  horizontal tab is deleted; with the pattern \<^verbatim>\<open>[:vtab:]\<close> alone, the pass deletes exactly
  the horizontal tabs of any buffer.
\<close>

theorem vtab_token_keeps_vertical_tab:
  "contains_this ''[:vtab:]'' ''[:vtab:]'' \<and>
   match_args ''[:vtab:]'' [CHR ''a'', CHR 0x0B, CHR ''b'', CHR 0x09, CHR ''c''] =
     [CHR ''a'', CHR 0x0B, CHR ''b'', CHR ''c''] \<and>
   isvtab (char_to_int (CHR 0x0B)) \<and>
   match_args ''[:vtab:]'' buf = filter (\<lambda>c. c \<noteq> CHR 0x09) buf"
proof -
  have "match_args ''[:vtab:]'' b = filter (\<lambda>c. c \<noteq> CHR 0x09) b" for b
    by (simp add: match_args_filter token_eval ishtab_byte)
  then show ?thesis
    by (simp add: token_eval isvtab_def)
qed

text \<open>
  C2 (as amended): the token \<^verbatim>\<open>[:space:]\<close> selects the predicate \<^verbatim>\<open>isaspace\<close>, which is
  true of the byte 0x20 alone. For every buffer and every pattern containing the token, no
  byte 0x20 is left in the buffer, and the pass deletes exactly the bytes that are 0x20 or
  that the predicate of another token of the pattern matches. So a byte in 0x09 to 0x0D
  is deleted only when another token of the pattern selects it: it stays when the pattern
  has none of \<^verbatim>\<open>[:blank:]\<close>, \<^verbatim>\<open>[:cntrl:]\<close>, \<^verbatim>\<open>[:htab:]\<close>, \<^verbatim>\<open>[:vtab:]\<close> and \<^verbatim>\<open>[:newline:]\<close>.
  For the pattern \<^verbatim>\<open>[:space:]\<close> alone the pass deletes exactly the bytes 0x20.
\<close>

theorem space_token_removes_aspace:
  assumes "contains_this args ''[:space:]''"
  shows "CHR '' '' \<notin> set (match_args args buf) \<and>
         match_args ''[:space:]'' buf = filter (\<lambda>c. c \<noteq> CHR '' '') buf \<and>
         match_args args buf = filter (\<lambda>item. \<not> (
            (contains_this args ''[:alnum:]'' \<and> isalnum (char_to_int item)) \<or>
            (contains_this args ''[:alpha:]'' \<and> isalpha (char_to_int item)) \<or>
            (contains_this args ''[:blank:]'' \<and> isblank (char_to_int item)) \<or>
            (contains_this args ''[:cntrl:]'' \<and> iscntrl (char_to_int item)) \<or>
            (contains_this args ''[:digit:]'' \<and> isdigit (char_to_int item)) \<or>
            (contains_this args ''[:graph:]'' \<and> isgraph (char_to_int item)) \<or>
            (contains_this args ''[:lower:]'' \<and> islower (char_to_int item)) \<or>
            (contains_this args ''[:print:]'' \<and> isprint (char_to_int item)) \<or>
            (contains_this args ''[:punct:]'' \<and> ispunct (char_to_int item)) \<or>
            item = CHR '' '' \<or>
            (contains_this args ''[:htab:]'' \<and> ishtab (char_to_int item)) \<or>
            (contains_this args ''[:vtab:]'' \<and> ishtab (char_to_int item)) \<or>
            (contains_this args ''[:newline:]'' \<and> isnewline (char_to_int item)) \<or>
            (contains_this args ''[:upper:]'' \<and> isupper (char_to_int item)) \<or>
            (contains_this args ''[:xdigit:]'' \<and> isxdigit (char_to_int item)))) buf \<and>
         (\<forall>c \<in> set buf.
            9 \<le> char_to_int c \<and> char_to_int c \<le> 13 \<and>
            \<not> contains_this args ''[:blank:]'' \<and> \<not> contains_this args ''[:cntrl:]'' \<and>
            \<not> contains_this args ''[:htab:]'' \<and> \<not> contains_this args ''[:vtab:]'' \<and>
            \<not> contains_this args ''[:newline:]''
            \<longrightarrow> c \<in> set (match_args args buf))"
proof -
  have "c \<in> set (match_args args buf) \<Longrightarrow> \<not> isaspace (char_to_int c)" for c
    using assms unfolding match_args_filter by simp
  then have gone: "CHR '' '' \<notin> set (match_args args buf)"
    using isaspace_byte by blast
  have alone: "match_args ''[:space:]'' buf = filter (\<lambda>c. c \<noteq> CHR '' '') buf"
    by (simp add: match_args_filter token_eval isaspace_byte)
  have exact: "match_args args buf = filter (\<lambda>item. \<not> (
            (contains_this args ''[:alnum:]'' \<and> isalnum (char_to_int item)) \<or>
            (contains_this args ''[:alpha:]'' \<and> isalpha (char_to_int item)) \<or>
            (contains_this args ''[:blank:]'' \<and> isblank (char_to_int item)) \<or>
            (contains_this args ''[:cntrl:]'' \<and> iscntrl (char_to_int item)) \<or>
            (contains_this args ''[:digit:]'' \<and> isdigit (char_to_int item)) \<or>
            (contains_this args ''[:graph:]'' \<and> isgraph (char_to_int item)) \<or>
            (contains_this args ''[:lower:]'' \<and> islower (char_to_int item)) \<or>
            (contains_this args ''[:print:]'' \<and> isprint (char_to_int item)) \<or>
            (contains_this args ''[:punct:]'' \<and> ispunct (char_to_int item)) \<or>
            item = CHR '' '' \<or>
            (contains_this args ''[:htab:]'' \<and> ishtab (char_to_int item)) \<or>
            (contains_this args ''[:vtab:]'' \<and> ishtab (char_to_int item)) \<or>
            (contains_this args ''[:newline:]'' \<and> isnewline (char_to_int item)) \<or>
            (contains_this args ''[:upper:]'' \<and> isupper (char_to_int item)) \<or>
            (contains_this args ''[:xdigit:]'' \<and> isxdigit (char_to_int item)))) buf"
    unfolding match_args_filter using assms by (simp only: isaspace_byte simp_thms)
  have stays: "\<forall>c \<in> set buf.
            9 \<le> char_to_int c \<and> char_to_int c \<le> 13 \<and>
            \<not> contains_this args ''[:blank:]'' \<and> \<not> contains_this args ''[:cntrl:]'' \<and>
            \<not> contains_this args ''[:htab:]'' \<and> \<not> contains_this args ''[:vtab:]'' \<and>
            \<not> contains_this args ''[:newline:]''
            \<longrightarrow> c \<in> set (match_args args buf)"
  proof (intro ballI impI)
    fix c
    assume mem: "c \<in> set buf"
      and h: "9 \<le> char_to_int c \<and> char_to_int c \<le> 13 \<and>
            \<not> contains_this args ''[:blank:]'' \<and> \<not> contains_this args ''[:cntrl:]'' \<and>
            \<not> contains_this args ''[:htab:]'' \<and> \<not> contains_this args ''[:vtab:]'' \<and>
            \<not> contains_this args ''[:newline:]''"
    then have rng: "9 \<le> char_to_int c" "char_to_int c \<le> 13"
      and tok: "contains_this args ''[:blank:]'' = False" "contains_this args ''[:cntrl:]'' = False"
        "contains_this args ''[:htab:]'' = False" "contains_this args ''[:vtab:]'' = False"
        "contains_this args ''[:newline:]'' = False"
      by simp_all
    from rng have cls: "isalnum (char_to_int c) = False" "isalpha (char_to_int c) = False"
      "isdigit (char_to_int c) = False" "isgraph (char_to_int c) = False"
      "islower (char_to_int c) = False" "isprint (char_to_int c) = False"
      "ispunct (char_to_int c) = False" "isupper (char_to_int c) = False"
      "isxdigit (char_to_int c) = False"
      by (simp_all add: isalnum_range isalpha_range isdigit_range isgraph_range islower_range
          isprint_range ispunct_range isupper_range isxdigit_range)
    have "char_to_int c \<noteq> char_to_int CHR '' ''"
      using rng by (simp add: char_to_int_def)
    then have sp: "(c = CHR '' '') = False"
      by (simp only: char_to_int_inj simp_thms)
    show "c \<in> set (match_args args buf)"
      using mem by (simp only: exact set_filter mem_Collect_eq tok cls sp simp_thms)
  qed
  from gone alone exact stays show ?thesis
    by (intro conjI)
qed

text \<open>
  C2, witness: the pattern \<^verbatim>\<open>x[:space:]\<close> contains the token and no other; on the buffer
  \<open>a b\<close>, tab, \<open>c\<close> the space goes and the tab stays, under that pattern as under
  \<^verbatim>\<open>[:space:]\<close> alone.
\<close>

theorem space_token_removes_aspace_witness:
  "contains_this ''x[:space:]'' ''[:space:]'' \<and>
   CHR '' '' \<notin> set (match_args ''x[:space:]'' [CHR ''a'', CHR '' '', CHR ''b'', CHR 0x09, CHR ''c'']) \<and>
   match_args ''[:space:]'' [CHR ''a'', CHR '' '', CHR ''b'', CHR 0x09, CHR ''c''] =
     [CHR ''a'', CHR ''b'', CHR 0x09, CHR ''c''] \<and>
   match_args ''x[:space:]'' [CHR ''a'', CHR '' '', CHR ''b'', CHR 0x09, CHR ''c''] =
     [CHR ''a'', CHR ''b'', CHR 0x09, CHR ''c''] \<and>
   CHR 0x09 \<in> set (match_args ''x[:space:]'' [CHR ''a'', CHR '' '', CHR ''b'', CHR 0x09, CHR ''c''])"
proof -
  let ?buf = "[CHR ''a'', CHR '' '', CHR ''b'', CHR 0x09, CHR ''c'']"
  have tok: "contains_this ''x[:space:]'' ''[:space:]''"
    by (simp add: token_eval)
  have none: "contains_this ''x[:space:]'' ''[:alnum:]'' = False"
    "contains_this ''x[:space:]'' ''[:alpha:]'' = False"
    "contains_this ''x[:space:]'' ''[:blank:]'' = False"
    "contains_this ''x[:space:]'' ''[:cntrl:]'' = False"
    "contains_this ''x[:space:]'' ''[:digit:]'' = False"
    "contains_this ''x[:space:]'' ''[:graph:]'' = False"
    "contains_this ''x[:space:]'' ''[:lower:]'' = False"
    "contains_this ''x[:space:]'' ''[:print:]'' = False"
    "contains_this ''x[:space:]'' ''[:punct:]'' = False"
    "contains_this ''x[:space:]'' ''[:htab:]'' = False"
    "contains_this ''x[:space:]'' ''[:vtab:]'' = False"
    "contains_this ''x[:space:]'' ''[:newline:]'' = False"
    "contains_this ''x[:space:]'' ''[:upper:]'' = False"
    "contains_this ''x[:space:]'' ''[:xdigit:]'' = False"
    by (simp_all add: token_eval)
  note inst = space_token_removes_aspace [OF tok, of ?buf]
  from inst have gone: "CHR '' '' \<notin> set (match_args ''x[:space:]'' ?buf)"
    by (rule conjunct1)
  from inst have alone: "match_args ''[:space:]'' ?buf = [CHR ''a'', CHR ''b'', CHR 0x09, CHR ''c'']"
    by (simp only: conjunct1 [OF conjunct2 [OF inst]]) simp
  have "match_args ''x[:space:]'' ?buf = filter (\<lambda>item. item \<noteq> CHR '' '') ?buf"
    using conjunct1 [OF conjunct2 [OF conjunct2 [OF inst]]]
    by (simp only: none simp_thms)
  then have pat: "match_args ''x[:space:]'' ?buf = [CHR ''a'', CHR ''b'', CHR 0x09, CHR ''c'']"
    by simp
  have tab: "CHR 0x09 \<in> set (match_args ''x[:space:]'' ?buf)"
    unfolding pat by simp
  from tok gone alone pat tab show ?thesis
    by (intro conjI)
qed

text \<open>
  C2, counterexample to the claim as stated: the pattern \<^verbatim>\<open>[:space:]\<close> contains the token,
  the bytes 0x09 and 0x0A match the space classifier \<^verbatim>\<open>isspace\<close>, and both are still in the
  buffer after the pass.
\<close>

theorem space_token_keeps_tab_and_newline:
  "contains_this ''[:space:]'' ''[:space:]'' \<and>
   isspace (char_to_int (CHR 0x09)) \<and> isspace (char_to_int (CHR 0x0A)) \<and>
   match_args ''[:space:]'' [CHR 0x09, CHR '' '', CHR 0x0A] = [CHR 0x09, CHR 0x0A]"
  by (simp add: match_args_filter token_eval isaspace_def isspace_def char_to_int_def)

section \<open>Facts about literal removal\<close>

lemma count_list_remove1:
  "count_list (remove1 e s) c = (if c = e then count_list s c - 1 else count_list s c)"
  by (induction s) auto

lemma count_list_funpow_remove1:
  "count_list ((remove1 e ^^ k) s) c = (if c = e then count_list s c - k else count_list s c)"
  by (induction k arbitrary: s) (auto simp add: count_list_remove1 funpow_swap1)

lemma subseq_remove1: "subseq (remove1 e s) s"
  by (induction s) auto

lemma subseq_funpow_remove1: "subseq ((remove1 e ^^ k) s) s"
proof (induction k)
  case 0
  show ?case by simp
next
  case (Suc k)
  have "subseq (remove1 e ((remove1 e ^^ k) s)) ((remove1 e ^^ k) s)"
    by (rule subseq_remove1)
  with Suc show ?case
    by (auto intro: subseq_order.order_trans)
qed

text \<open>
  The inner loop, started with a counter \<open>n \<ge> 0\<close> on a source with \<open>k\<close> occurrences of
  \<open>e\<close>, deletes the leftmost occurrence \<open>min k n\<close> times (\<^const>\<open>remove1\<close> deletes the first
  occurrence).
\<close>

lemma erase_while_nat:
  "erase_while e s (int n) =
     ((remove1 e ^^ min (count_list s e) n) s, int n - int (min (count_list s e) n))"
proof (induction n arbitrary: s)
  case 0
  show ?case
    by (simp add: erase_while.simps [of e s 0])
next
  case (Suc n)
  show ?case
  proof (cases "e \<in> set s")
    case True
    then have c: "count_list s e > 0"
      using count_list_0_iff [of s e] by auto
    have "erase_while e s (int (Suc n)) = erase_while e (remove1 e s) (int n)"
      using True by (subst erase_while.simps) (simp add: std_find_end_iff erase_first)
    also have "\<dots> = ((remove1 e ^^ min (count_list s e - 1) n) (remove1 e s),
        int n - int (min (count_list s e - 1) n))"
      by (simp add: Suc.IH count_list_remove1)
    also have "\<dots> = ((remove1 e ^^ min (count_list s e) (Suc n)) s,
        int (Suc n) - int (min (count_list s e) (Suc n)))"
      using c by (cases "count_list s e") (simp_all add: funpow_swap1)
    finally show ?thesis .
  next
    case False
    then show ?thesis
      by (subst erase_while.simps) (simp add: std_find_end_iff)
  qed
qed

text \<open>The outer loop from position \<open>it\<close> on is a fold of the passes over the rest of \<open>matches\<close>.\<close>

lemma for_matches_fold:
  assumes "end_it = length matches" and "it \<le> end_it"
  shows "for_matches it end_it source matches (int n) (int n) =
     (fold (\<lambda>e s. (remove1 e ^^ min (count_list s e) n) s) (drop it matches) source, matches)"
  using assms
proof (induction "end_it - it" arbitrary: it source)
  case 0
  then show ?case
    by (subst for_matches.simps) simp
next
  case (Suc d)
  then have lt: "it < length matches" and d: "d = end_it - Suc it" and le: "Suc it \<le> end_it"
    by simp_all
  have dr: "drop it matches = matches ! it # drop (Suc it) matches"
    using lt by (simp add: Cons_nth_drop_Suc)
  show ?case
    using lt Suc.hyps(1) [OF d Suc.prems(1) le] Suc.prems(1)
    by (subst for_matches.simps) (simp add: erase_while_nat str_erase_range_def dr Let_def)
qed

lemma look_for_fold:
  assumes "0 \<le> N"
  shows "look_for source matches N =
     (let out = fold (\<lambda>e s. (remove1 e ^^ min (count_list s e) (nat N)) s) matches source
      in (Inr out, out, matches))"
proof -
  from assms obtain n where N: "N = int n"
    using nonneg_int_cases by blast
  show ?thesis
    unfolding N by (simp add: look_for_def for_matches_fold Let_def)
qed

lemma count_list_fold_pass:
  "count_list (fold (\<lambda>e s. (remove1 e ^^ min (count_list s e) n) s) matches source) c =
     count_list source c - min (count_list source c) (count_list matches c * n)"
proof (induction matches arbitrary: source)
  case Nil
  show ?case by simp
next
  case (Cons e es)
  show ?case
    by (simp add: Cons.IH count_list_funpow_remove1) (auto simp add: min_def)
qed

lemma subseq_fold_pass:
  "subseq (fold (\<lambda>e s. (remove1 e ^^ min (count_list s e) n) s) matches source) source"
proof (induction matches arbitrary: source)
  case Nil
  show ?case by simp
next
  case (Cons e es)
  have "subseq ((remove1 e ^^ min (count_list source e) n) source) source"
    by (rule subseq_funpow_remove1)
  with Cons.IH [of "(remove1 e ^^ min (count_list source e) n) source"] show ?case
    by (auto intro: subseq_order.order_trans)
qed

text \<open>Whatever the counters are, the outer loop hands back \<open>matches\<close> as it got it.\<close>

lemma for_matches_matches:
  "snd (for_matches it end_it source matches n times_old) = matches"
proof (induction it end_it source matches n times_old rule: for_matches.induct)
  case (1 it end_it source matches n times_old)
  show ?case
  proof (cases "it < end_it")
    case True
    obtain source' n' where ew: "erase_while (matches ! it) source n = (source', n')"
      by (cases "erase_while (matches ! it) source n")
    have "snd (for_matches (Suc it) end_it source' (str_erase_range matches 0 0)
        times_old times_old) = str_erase_range matches 0 0"
      using "1.IH" [OF True refl ew [symmetric] refl] by simp
    then show ?thesis
      using True ew by (subst for_matches.simps) (simp add: str_erase_range_def)
  next
    case False
    then show ?thesis
      by (subst for_matches.simps) simp
  qed
qed

section \<open>Claims about literal removal\<close>

text \<open>
  C4 (as amended): for every buffer, every residue and every limit \<open>N \<ge> 0\<close>, \<^verbatim>\<open>look_for\<close>
  returns the buffer after one pass per character of the residue, in the order of the
  residue, a character that is repeated in the residue getting a pass per repetition. The
  pass of \<open>e\<close> on a buffer with \<open>k\<close> occurrences of \<open>e\<close> deletes the leftmost remaining
  occurrence \<open>min k N\<close> times. Hence a character that occurs \<open>m\<close> times in the residue and
  \<open>k\<close> times in the buffer loses exactly \<open>min k (m * N)\<close> occurrences: \<open>min k N\<close> when it
  occurs once in the residue, none when it does not occur in it.
\<close>

theorem look_for_removes_bounded:
  assumes "0 \<le> N"
  shows "(let out = fold (\<lambda>e s. (remove1 e ^^ min (count_list s e) (nat N)) s) matches source in
     look_for source matches N = (Inr out, out, matches) \<and>
     (\<forall>c. count_list out c =
        count_list source c - min (count_list source c) (count_list matches c * nat N)) \<and>
     (\<forall>c. count_list matches c = 1 \<longrightarrow>
        count_list out c = count_list source c - min (count_list source c) (nat N)))"
proof -
  let ?out = "fold (\<lambda>e s. (remove1 e ^^ min (count_list s e) (nat N)) s) matches source"
  have "look_for source matches N = (Inr ?out, ?out, matches)"
    using look_for_fold [OF assms, of source matches] by (simp add: Let_def)
  moreover have "count_list ?out c =
      count_list source c - min (count_list source c) (count_list matches c * nat N)" for c
    by (rule count_list_fold_pass)
  ultimately show ?thesis
    by (simp add: Let_def)
qed

text \<open>
  C4, witness: the limit 2, the residue \<open>b\<close>, the buffer \<open>aabbbcc\<close>: two of the three
  \<open>b\<close> go, the leftmost first.
\<close>

theorem look_for_removes_bounded_witness:
  "(0::int) \<le> 2 \<and> look_for ''aabbbcc'' ''b'' 2 = (Inr ''aabcc'', ''aabcc'', ''b'') \<and>
   count_list ''aabcc'' CHR ''b'' = count_list ''aabbbcc'' CHR ''b'' - min (count_list ''aabbbcc'' CHR ''b'') 2"
  using look_for_removes_bounded [of 2 "''b''" "''aabbbcc''"]
  by (simp add: Let_def)

text \<open>
  C4, counterexample to the claim as stated: with the limit 1 and the residue \<open>bb\<close>, the
  character \<open>b\<close> occurs 3 times in the buffer \<open>bbb\<close>, and \<^verbatim>\<open>look_for\<close> removes 2 of them,
  not \<open>min 3 1\<close>: the limit is spent once per repetition in the residue.
\<close>

theorem look_for_repeated_residue:
  "look_for ''bbb'' ''bb'' 1 = (Inr ''b'', ''b'', ''bb'') \<and>
   count_list ''b'' CHR ''b'' \<noteq>
     count_list ''bbb'' CHR ''b'' - min (count_list ''bbb'' CHR ''b'') (nat 1)"
  by (simp add: look_for_fold Let_def)

text \<open>
  C5: for every buffer, every residue and every limit \<open>N < 0\<close>, \<^verbatim>\<open>look_for\<close> ends in the
  usage error of \<^verbatim>\<open>fatal_errorx\<close>, with the buffer and the residue as they were at entry.
  The limit is not clamped to zero: with the limit 0 the call returns.
\<close>

theorem look_for_rejects_negative:
  assumes "N < 0"
  shows "look_for source matches N =
       (Inl (fatal_errorx ''size of how many, cannot be less than 0.''), source, matches) \<and>
     look_for source matches 0 = (Inr source, source, matches) \<and>
     fst (look_for source matches N) \<noteq> fst (look_for source matches 0)"
proof -
  have neg: "look_for source matches N =
      (Inl (fatal_errorx ''size of how many, cannot be less than 0.''), source, matches)"
    using assms by (simp add: look_for_def)
  have "fold (\<lambda>e s. s) matches s = s" for s :: string
    by (induction matches) simp_all
  then have zero: "look_for source matches 0 = (Inr source, source, matches)"
    by (simp add: look_for_fold Let_def)
  show ?thesis
    unfolding neg zero by simp
qed

text \<open>C5, witness: the limit \<open>-1\<close> on the buffer \<open>abc\<close> with the residue \<open>b\<close>.\<close>

theorem look_for_rejects_negative_witness:
  "(- 1 :: int) < 0 \<and>
   look_for ''abc'' ''b'' (- 1) =
     (Inl (Exit 1 (''error: size of how many, cannot be less than 0.'' @ [CHR 0x0A])),
      ''abc'', ''b'')"
  using look_for_rejects_negative [of "- 1" "''abc''" "''b''"]
  by (simp add: fatal_errorx_def)

text \<open>
  C9: both passes only delete bytes and keep the order of the others. For every buffer and
  every pattern, the buffer after \<^verbatim>\<open>match_args\<close> is a subsequence of the buffer before; for
  every residue and every limit \<open>N \<ge> 0\<close>, \<^verbatim>\<open>look_for\<close> returns a subsequence of its source;
  and so the output of the two passes in sequence is a subsequence of the input buffer.
\<close>

theorem removal_preserves_order:
  assumes "0 \<le> N"
  shows "subseq (match_args args buf) buf \<and>
     (\<exists>out. look_for source matches N = (Inr out, out, matches) \<and> subseq out source) \<and>
     (\<exists>out. look_for (match_args args buf) matches N = (Inr out, out, matches) \<and>
        subseq out buf)"
proof -
  have cls: "subseq (match_args args buf) buf"
    unfolding match_args_filter by (rule subseq_filter_left)
  have lit: "\<exists>out. look_for s matches N = (Inr out, out, matches) \<and> subseq out s" for s
    using look_for_fold [OF assms, of s matches] subseq_fold_pass [of "nat N" matches s]
    by (simp add: Let_def)
  from lit [of "match_args args buf"] obtain out
    where out: "look_for (match_args args buf) matches N = (Inr out, out, matches)"
      and sub: "subseq out (match_args args buf)"
    by blast
  from sub cls have "subseq out buf"
    by (rule subseq_order.order_trans)
  with out cls lit [of source] show ?thesis
    by blast
qed

text \<open>
  C9, witness: the pattern \<^verbatim>\<open>[:digit:]\<close> on the buffer \<open>a1b2\<close> leaves \<open>ab\<close>; the residue
  \<open>b\<close> with the limit 1 then leaves \<open>a\<close>.
\<close>

theorem removal_preserves_order_witness:
  "(0::int) \<le> 1 \<and> match_args ''[:digit:]'' ''a1b2'' = ''ab'' \<and> subseq ''ab'' ''a1b2'' \<and>
   look_for ''ab'' ''b'' 1 = (Inr ''a'', ''a'', ''b'') \<and> subseq ''a'' ''a1b2''"
proof -
  have m: "match_args ''[:digit:]'' ''a1b2'' = ''ab''"
    by (simp add: match_args_filter token_eval isdigit_range char_to_int_def)
  have l: "look_for ''ab'' ''b'' 1 = (Inr ''a'', ''a'', ''b'')"
    by (simp add: look_for_fold Let_def)
  from removal_preserves_order [where N = 1 and args = "''[:digit:]''" and buf = "''a1b2''"
      and source = "''ab''" and matches = "''b''"]
  show ?thesis
    unfolding m l by simp
qed

text \<open>
  C10: for every buffer, every residue and every limit \<open>N \<ge> 0\<close>, \<^verbatim>\<open>look_for\<close> returns, and
  its parameter \<open>matches\<close> is then what it was at entry: the call of \<^verbatim>\<open>erase\<close> in each
  iteration removes the empty range from \<open>begin\<close> to \<open>begin\<close>.
\<close>

theorem look_for_leaves_matches:
  assumes "0 \<le> N"
  shows "str_erase_range matches 0 0 = matches \<and>
     (\<exists>out. look_for source matches N = (Inr out, out, matches))"
proof -
  obtain s m where fm: "for_matches 0 (length matches) source matches N N = (s, m)"
    by (cases "for_matches 0 (length matches) source matches N N")
  with for_matches_matches [of 0 "length matches" source matches N N] have "m = matches"
    by simp
  with fm assms have "look_for source matches N = (Inr s, s, matches)"
    by (simp add: look_for_def)
  then show ?thesis
    by (simp add: str_erase_range_def)
qed

text \<open>C10, witness: the limit 2, the residue \<open>bc\<close>, the buffer \<open>aabbbcc\<close>.\<close>

theorem look_for_leaves_matches_witness:
  "(0::int) \<le> 2 \<and> str_erase_range ''bc'' 0 0 = ''bc'' \<and>
   snd (snd (look_for ''aabbbcc'' ''bc'' 2)) = ''bc''"
  using look_for_leaves_matches [of 2 "''bc''" "''aabbbcc''"]
  by auto

section \<open>The literal residue\<close>

text \<open>Without \<^verbatim>\<open>[:\<close> the pattern is the residue.\<close>

lemma literal_residue_without_token:
  "\<not> contains_this arg_v1 ''[:'' \<Longrightarrow> literal_residue arg_v1 = Inr arg_v1"
  by (simp add: literal_residue_def contains_this_def)

text \<open>
  With \<^verbatim>\<open>[:\<close> at position \<open>first\<close>, the call of \<^verbatim>\<open>replace\<close> never throws, and it removes
  \<open>rfind(":]") + 2\<close> characters from \<open>first\<close> on, or all that are left when there are fewer.
\<close>

lemma literal_residue_with_token:
  assumes "contains_this arg_v1 ''[:''" and "length arg_v1 < npos"
  shows "literal_residue arg_v1 =
     Inr (take (str_find arg_v1 ''[:'') arg_v1 @
          drop (str_find arg_v1 ''[:'' +
                min ((str_rfind arg_v1 '':]'' + 2) mod 2 ^ 64)
                    (length arg_v1 - str_find arg_v1 ''[:'')) arg_v1)"
proof -
  from assms have "sublist ''[:'' arg_v1"
    by (simp add: contains_this_sublist)
  from find_from_present [OF this, of 0] have "str_find arg_v1 ''[:'' \<le> length arg_v1"
    by (simp add: str_find_def)
  with assms(1) show ?thesis
    by (simp add: literal_residue_def contains_this_def str_replace_def)
qed

lemmas residue_eval = literal_residue_def str_find_def str_rfind_def str_replace_def npos_def

text \<open>
  C3: the claim wants the span from the first \<^verbatim>\<open>[:\<close> to two characters past the last
  \<^verbatim>\<open>:]\<close> removed. The code passes \<open>rfind(":]") + 2\<close>, which is the position where that span
  ends, as the number of characters to remove. In the pattern \<^verbatim>\<open>x[:digit:]y\<close> the first
  \<^verbatim>\<open>[:\<close> is at 1 and the last \<^verbatim>\<open>:]\<close> at 8: the span of the claim leaves \<open>xy\<close>, the code
  removes up to 10 characters from position 1 on and leaves \<open>x\<close>.
\<close>

theorem literal_residue_drops_trailing_literal:
  "literal_residue ''x[:digit:]y'' = Inr ''x'' \<and>
   str_find ''x[:digit:]y'' ''[:'' = 1 \<and> str_rfind ''x[:digit:]y'' '':]'' = 8 \<and>
   take 1 ''x[:digit:]y'' @ drop (8 + 2) ''x[:digit:]y'' = ''xy''"
  by (simp add: residue_eval)

section \<open>The end-to-end scenarios of the specification\<close>

lemma scenario_digits: "main_core ''[:digit:]'' ''Hello123 World!'' (2 ^ 63 - 1) = Inr ''Hello World!''"
  by (simp add: main_core_def match_args_filter token_eval isdigit_range char_to_int_def
      residue_eval look_for_fold Let_def)

lemma scenario_limit: "main_core ''b'' ''aabbbcc'' 2 = Inr ''aabcc''"
  by (simp add: main_core_def match_args_filter token_eval residue_eval look_for_fold Let_def)

lemma scenario_classes_and_literal:
  "main_core ''l[:upper:][:blank:]'' ''A1 B2 C3'' 1 = Inr ''123''"
  by (simp add: main_core_def match_args_filter token_eval isupper_range isblank_range
      char_to_int_def residue_eval look_for_fold Let_def)

lemma scenario_unlimited: "main_core ''si'' ''mississippi'' (2 ^ 63 - 1) = Inr ''mpp''"
  by (simp add: main_core_def match_args_filter token_eval residue_eval look_for_fold Let_def)

end
